theory Spec2Isabelle
  imports Main
begin

section \<open>One-time passcodes by mail: the store and the rate limiter\<close>

text \<open>
  The development embeds the OTP part of the mail module: \<open>generateOTP\<close>,
  \<open>sendOTP\<close>, \<open>validateOTP\<close> and \<open>scheduleOtpExpiry\<close>, in the later variant
  with the guarded expiry timer, and, further down, the earlier variant of
  \<open>generateOTP\<close> and \<open>sendOTP\<close> kept in \<open>backend/src/mail.ts\<close>
  (\<open>validateOTP\<close> is the same in both).

  Conventions of the embedding.
  \<^item> A JavaScript string is a list of its code units. The messages of the module and
    the addresses considered use code units below 256 only, so a code unit is a
    \<^typ>\<open>char\<close>; a with grave accent is code unit 224 and e with acute accent
    is 233.
  \<^item> A number is an \<^typ>\<open>int\<close>: \<open>Date.now()\<close> and the counters are integers, the
    products \<open>60000 * 2^k\<close> are exact in double precision until they overflow to
    \<open>Infinity\<close>, and a limit that large is compared and clamped the same way as the
    exact integer is.
  \<^item> The object \<open>OTP\<close> is a map from addresses to entries. \<open>email in OTP\<close> and
    \<open>OTP[email]\<close> also see the properties of \<open>Object.prototype\<close>; none of those
    contains \<open>@\<close>, and none has a string \<open>code\<close>, so they never act as an entry.
  \<^item> \<open>Date.now()\<close>, the digits drawn from \<open>Math.random()\<close> and the outcome of
    \<open>transporter.sendMail\<close> are arguments.
  \<^item> Every \<open>setTimeout\<close> callback waits in the list \<open>timers\<close> of the state until
    the event that fires it.
\<close>

subsection \<open>Data\<close>

record OTPEntry =
  code :: string
  lastSendTime :: "int option"
  recentSendCount :: int

record sendOTPResponse =
  msg :: string
  valid :: bool

record server_state =
  OTP :: "string \<rightharpoonup> OTPEntry"
  timers :: "(string \<times> int) list"

datatype js_error = TypeError | SendMailError

definition OTP_RATE_LIMIT_MS :: int where
  "OTP_RATE_LIMIT_MS = 60000"

definition OTP_EXPIRE_MS :: int where
  "OTP_EXPIRE_MS = 6 * 60 * 60 * 1000"

definition OTP_EXPIRE_TOLERANCE_MS :: int where
  "OTP_EXPIRE_TOLERANCE_MS = 60 * 1000"

subsection \<open>Strings and numbers of the host language\<close>

text \<open>\<open>s.split(c)\<close> for a separator of one code unit: never empty, one more field than
  there are separators.\<close>

fun split_js :: "char \<Rightarrow> string \<Rightarrow> string list" where
  "split_js c [] = [[]]"
| "split_js c (x # xs) =
     (if x = c then [] # split_js c xs
      else (case split_js c xs of
              [] \<Rightarrow> [[x]]
            | f # fs \<Rightarrow> (x # f) # fs))"

text \<open>\<open>toLowerCase\<close> on code units below 256: the letters A to Z and the accented
  capitals 192 to 222 (but the multiplication sign 215) move up by 32.\<close>

definition lowerChar :: "char \<Rightarrow> char" where
  "lowerChar c =
     (let n = (of_char c :: nat)
      in if (65 \<le> n \<and> n \<le> 90) \<or> (192 \<le> n \<and> n \<le> 222 \<and> n \<noteq> 215)
         then char_of (n + 32) else c)"

definition toLowerCase :: "string \<Rightarrow> string" where
  "toLowerCase s = map lowerChar s"

text \<open>\<open>Math.ceil(x / d)\<close> for integers \<open>x\<close> and \<open>d > 0\<close>.\<close>

definition ceilDiv :: "int \<Rightarrow> int \<Rightarrow> int" where
  "ceilDiv x d = - ((- x) div d)"

text \<open>A number inside a template literal: its decimal digits, after a minus sign when
  it is negative.\<close>

definition digitChar :: "nat \<Rightarrow> char" where
  "digitChar d = char_of (48 + d)"

fun showNat :: "nat \<Rightarrow> string" where
  "showNat n = (if n < 10 then [digitChar n] else showNat (n div 10) @ [digitChar (n mod 10)])"

declare showNat.simps [simp del]

definition showInt :: "int \<Rightarrow> string" where
  "showInt i = (if i < 0 then CHR ''-'' # showNat (nat (- i)) else showNat (nat i))"

subsection \<open>\<open>generateOTP\<close>\<close>

text \<open>\<open>digits[d]\<close> appended to a string: the digit, or the text \<open>undefined\<close> out of
  range. \<open>Math.floor(Math.random() * 10)\<close> is always in range.\<close>

definition digits :: string where
  "digits = ''0123456789''"

definition digitAt :: "nat \<Rightarrow> string" where
  "digitAt d = (if d < length digits then [digits ! d] else ''undefined'')"

text \<open>The loop \<open>for (let i = 0; i < 6; i++) tmp += digits[...]\<close>; \<open>rnd i\<close> is the
  value of \<open>Math.floor(Math.random() * 10)\<close> in round \<open>i\<close>.\<close>

function genLoop :: "(nat \<Rightarrow> nat) \<Rightarrow> nat \<Rightarrow> string \<Rightarrow> string" where
  "genLoop rnd i tmp = (if i < 6 then genLoop rnd (i + 1) (tmp @ digitAt (rnd i)) else tmp)"
  by pat_completeness auto
termination
  by (relation "measure (\<lambda>(rnd, i, tmp). 6 - i)") auto

declare genLoop.simps [simp del]

definition generateOTP :: "string \<Rightarrow> (nat \<Rightarrow> nat) \<Rightarrow> server_state \<Rightarrow> server_state" where
  "generateOTP email rnd st =
     (let tmp = genLoop rnd 0 [];
          prev = OTP st email
      in st\<lparr>OTP := (OTP st)(email \<mapsto>
            \<lparr>code = tmp,
             lastSendTime = (case prev of None \<Rightarrow> None | Some p \<Rightarrow> lastSendTime p),
             recentSendCount = (case prev of None \<Rightarrow> 0 | Some p \<Rightarrow> recentSendCount p)\<rparr>)\<rparr>)"

subsection \<open>\<open>validateOTP\<close>\<close>

text \<open>A string is truthy when it is not empty; an entry is truthy when it exists.\<close>

definition validateOTP :: "string \<Rightarrow> string \<Rightarrow> server_state \<Rightarrow> bool \<times> server_state" where
  "validateOTP email otp st =
     (if otp \<noteq> [] \<and> (case OTP st email of None \<Rightarrow> False | Some entry \<Rightarrow> code entry = otp)
      then (True, st\<lparr>OTP := (OTP st)(email := None)\<rparr>)
      else (False, st))"

subsection \<open>\<open>sendOTP\<close>\<close>

definition agrave :: char where
  "agrave = char_of (224 :: nat)"

definition eacute :: char where
  "eacute = char_of (233 :: nat)"

definition apostrophe :: char where
  "apostrophe = char_of (39 :: nat)"

definition disposableResponse :: sendOTPResponse where
  "disposableResponse =
     \<lparr>msg = ''Le courriel fourni appartient '' @ [agrave] @ '' un fournisseur d'' @ [apostrophe]
              @ ''addresses temporaires'',
      valid = False\<rparr>"

definition successResponse :: sendOTPResponse where
  "successResponse =
     \<lparr>msg = ''Un code vous a '' @ [eacute] @ ''t'' @ [eacute] @ '' envoy'' @ [eacute] @ '' ''
              @ [agrave] @ '' l'' @ [apostrophe] @ ''adresse indiqu'' @ [eacute] @ ''e'',
      valid = True\<rparr>"

definition errorResponse :: sendOTPResponse where
  "errorResponse =
     \<lparr>msg = ''Erreur lors de l'' @ [apostrophe] @ ''envoi du code par mail'', valid = False\<rparr>"

definition waitSuffix :: string where
  "waitSuffix = '' avant de demander '' @ [agrave] @ '' nouveau un code''"

text \<open>\<open>email.split("@")[1].toLowerCase()\<close>: with no second field the method is called
  on \<open>undefined\<close>, which throws.\<close>

definition providerOf :: "string \<Rightarrow> js_error + string" where
  "providerOf email =
     (case split_js CHR ''@'' email of
        f0 # f1 # fs \<Rightarrow> Inr (toLowerCase f1)
      | _ \<Rightarrow> Inl TypeError)"

text \<open>The branch \<open>else if (email in OTP && OTP[email].lastSendTime) { ... }\<close>: the
  response it returns, or \<open>None\<close> when control falls through to \<open>generateOTP\<close>. A
  \<open>lastSendTime\<close> that is absent or 0 is falsy.\<close>

definition rateLimitBranch :: "string \<Rightarrow> int \<Rightarrow> server_state \<Rightarrow> sendOTPResponse option" where
  "rateLimitBranch email now st =
     (case OTP st email of
        None \<Rightarrow> None
      | Some entry \<Rightarrow>
          (case lastSendTime entry of
             None \<Rightarrow> None
           | Some t \<Rightarrow>
               if t = 0 then None
               else
                 let timeSinceLastSend = now - t;
                     effectiveCount = max 0 (recentSendCount entry - 1);
                     rateLimit = OTP_RATE_LIMIT_MS * 2 ^ nat effectiveCount
                 in if timeSinceLastSend < rateLimit then
                      let secondsLeft = ceilDiv (rateLimit - timeSinceLastSend) 1000;
                          maxSecondsLeft = ceilDiv OTP_EXPIRE_MS 1000;
                          clampedSecondsLeft = min secondsLeft maxSecondsLeft
                      in if clampedSecondsLeft > 120 then
                           let minutesLeft = ceilDiv clampedSecondsLeft 60
                           in Some \<lparr>msg = ''Veuillez attendre '' @ showInt minutesLeft @ '' minute''
                                          @ (if minutesLeft > 1 then ''s'' else [])
                                          @ waitSuffix,
                                    valid = False\<rparr>
                         else
                           Some \<lparr>msg = ''Veuillez attendre '' @ showInt clampedSecondsLeft
                                         @ '' seconde''
                                         @ (if clampedSecondsLeft > 1 then ''s'' else [])
                                         @ waitSuffix,
                                   valid = False\<rparr>
                    else None))"

text \<open>The body of the \<open>try\<close> up to the \<open>await\<close>: an exception, a response returned
  early, or the state after \<open>generateOTP\<close> with the mail handed to the transporter.\<close>

definition sendOTP_request ::
    "string list \<Rightarrow> string \<Rightarrow> int \<Rightarrow> (nat \<Rightarrow> nat) \<Rightarrow> server_state
      \<Rightarrow> js_error + (sendOTPResponse + server_state)" where
  "sendOTP_request disposableMails email now rnd st =
     (case providerOf email of
        Inl e \<Rightarrow> Inl e
      | Inr provider \<Rightarrow>
          if provider \<in> set disposableMails then Inr (Inl disposableResponse)
          else (case rateLimitBranch email now st of
                  Some r \<Rightarrow> Inr (Inl r)
                | None \<Rightarrow> Inr (Inr (generateOTP email rnd st))))"

text \<open>\<open>scheduleOtpExpiry\<close> registers its callback with the address and the expected
  timestamp.\<close>

definition scheduleOtpExpiry :: "string \<Rightarrow> int \<Rightarrow> server_state \<Rightarrow> server_state" where
  "scheduleOtpExpiry email expectedLastSendTime st =
     st\<lparr>timers := timers st @ [(email, expectedLastSendTime)]\<rparr>"

text \<open>The body of the \<open>try\<close> after the \<open>await\<close>: \<open>sendMail\<close> rejected, or the entry is
  gone (it was validated or it expired meanwhile) and the assignment to
  \<open>OTP[email].lastSendTime\<close> throws, or the send is committed.\<close>

definition sendOTP_settle ::
    "string \<Rightarrow> bool \<Rightarrow> int \<Rightarrow> server_state \<Rightarrow> js_error + (sendOTPResponse \<times> server_state)" where
  "sendOTP_settle email delivered now st =
     (if \<not> delivered then Inl SendMailError
      else (case OTP st email of
              None \<Rightarrow> Inl TypeError
            | Some entry \<Rightarrow>
                let st1 = st\<lparr>OTP := (OTP st)(email \<mapsto> entry\<lparr>lastSendTime := Some now\<rparr>)\<rparr>;
                    st2 = scheduleOtpExpiry email now st1;
                    st3 = st2\<lparr>OTP := (OTP st2)(email \<mapsto>
                            entry\<lparr>lastSendTime := Some now,
                                  recentSendCount := recentSendCount entry + 1\<rparr>)\<rparr>
                in Inr (successResponse, st3)))"

text \<open>A whole call with nothing else running during the \<open>await\<close>. \<open>now\<close> is the clock
  at the rate-limit check, \<open>now'\<close> the clock when the send is committed. The \<open>catch\<close>
  logs and answers with the error message; it leaves the state as the exception
  found it.\<close>

definition sendOTP ::
    "string list \<Rightarrow> string \<Rightarrow> int \<Rightarrow> (nat \<Rightarrow> nat) \<Rightarrow> bool \<Rightarrow> int \<Rightarrow> server_state
      \<Rightarrow> sendOTPResponse \<times> server_state" where
  "sendOTP disposableMails email now rnd delivered now' st =
     (case sendOTP_request disposableMails email now rnd st of
        Inl e \<Rightarrow> (errorResponse, st)
      | Inr (Inl r) \<Rightarrow> (r, st)
      | Inr (Inr st1) \<Rightarrow>
          (case sendOTP_settle email delivered now' st1 of
             Inl e \<Rightarrow> (errorResponse, st1)
           | Inr res \<Rightarrow> res))"

subsection \<open>The expiry callback and the list of disposable providers\<close>

text \<open>The callback of \<open>scheduleOtpExpiry\<close>, run when the clock reads \<open>now\<close>.\<close>

definition expiryCallback :: "string \<Rightarrow> int \<Rightarrow> int \<Rightarrow> server_state \<Rightarrow> server_state" where
  "expiryCallback email expectedLastSendTime now st =
     (case OTP st email of
        None \<Rightarrow> st
      | Some entry \<Rightarrow>
          (case lastSendTime entry of
             None \<Rightarrow> st
           | Some t \<Rightarrow>
               if t = 0 then st
               else
                 let delta = \<bar>t - expectedLastSendTime\<bar>;
                     age = now - t
                 in if delta \<le> OTP_EXPIRE_TOLERANCE_MS
                       \<and> age \<ge> OTP_EXPIRE_MS - OTP_EXPIRE_TOLERANCE_MS
                    then st\<lparr>OTP := (OTP st)(email := None)\<rparr>
                    else st))"

text \<open>Module initialisation: \<open>readFileSync\<close> gives the text of the file or throws
  (\<open>None\<close>); the \<open>catch\<close> only prints, and the list stays as initialised.\<close>

definition loadDisposableMails :: "string option \<Rightarrow> string list" where
  "loadDisposableMails file =
     (case file of
        None \<Rightarrow> []
      | Some text \<Rightarrow> split_js (char_of (10 :: nat)) text)"

subsection \<open>Runs of the server\<close>

text \<open>What the event loop can run, one step at a time: the first half of a \<open>sendOTP\<close>
  call, its second half once \<open>sendMail\<close> has settled, a \<open>validateOTP\<close> call, and a
  pending expiry callback. Calls of \<open>sendOTP\<close> interleave at the \<open>await\<close> only.\<close>

datatype event =
    Request string int "nat \<Rightarrow> nat"
  | Settle string bool int
  | Validate string string
  | Fire string int int

definition step :: "string list \<Rightarrow> event \<Rightarrow> server_state \<Rightarrow> server_state" where
  "step disposableMails ev st =
     (case ev of
        Request email now rnd \<Rightarrow>
          (case sendOTP_request disposableMails email now rnd st of
             Inr (Inr st1) \<Rightarrow> st1
           | _ \<Rightarrow> st)
      | Settle email delivered now \<Rightarrow>
          (case sendOTP_settle email delivered now st of
             Inr (r, st1) \<Rightarrow> st1
           | Inl e \<Rightarrow> st)
      | Validate email otp \<Rightarrow> snd (validateOTP email otp st)
      | Fire email expected now \<Rightarrow>
          (if (email, expected) \<in> set (timers st)
           then expiryCallback email expected now
                  (st\<lparr>timers := remove1 (email, expected) (timers st)\<rparr>)
           else st))"

fun run :: "string list \<Rightarrow> event list \<Rightarrow> server_state \<Rightarrow> server_state" where
  "run disposableMails [] st = st"
| "run disposableMails (ev # evs) st = run disposableMails evs (step disposableMails ev st)"

text \<open>The address for which an event calls \<open>generateOTP\<close>, if it does.\<close>

definition generatesFor :: "string list \<Rightarrow> event \<Rightarrow> server_state \<Rightarrow> string option" where
  "generatesFor disposableMails ev st =
     (case ev of
        Request email now rnd \<Rightarrow>
          (case sendOTP_request disposableMails email now rnd st of
             Inr (Inr st1) \<Rightarrow> Some email
           | _ \<Rightarrow> None)
      | _ \<Rightarrow> None)"

fun noGenerationFor :: "string list \<Rightarrow> string \<Rightarrow> event list \<Rightarrow> server_state \<Rightarrow> bool" where
  "noGenerationFor disposableMails email [] st = True"
| "noGenerationFor disposableMails email (ev # evs) st =
     (generatesFor disposableMails ev st \<noteq> Some email
      \<and> noGenerationFor disposableMails email evs (step disposableMails ev st))"

text \<open>Consecutive whole calls of \<open>sendOTP\<close> for one address, each with its clock at
  the check, its digits and its clock at the commit, all delivered; and whether every
  one of them was answered with \<open>valid = true\<close>.\<close>

fun sendAll ::
    "string list \<Rightarrow> string \<Rightarrow> (int \<times> (nat \<Rightarrow> nat) \<times> int) list \<Rightarrow> server_state \<Rightarrow> server_state" where
  "sendAll disposableMails email [] st = st"
| "sendAll disposableMails email ((now, rnd, now') # calls) st =
     sendAll disposableMails email calls
       (snd (sendOTP disposableMails email now rnd True now' st))"

fun allAccepted ::
    "string list \<Rightarrow> string \<Rightarrow> (int \<times> (nat \<Rightarrow> nat) \<times> int) list \<Rightarrow> server_state \<Rightarrow> bool" where
  "allAccepted disposableMails email [] st = True"
| "allAccepted disposableMails email ((now, rnd, now') # calls) st =
     (valid (fst (sendOTP disposableMails email now rnd True now' st))
      \<and> allAccepted disposableMails email calls
          (snd (sendOTP disposableMails email now rnd True now' st)))"

subsection \<open>The earlier variant in \<open>backend/src/mail.ts\<close>\<close>

text \<open>There \<open>generateOTP\<close> writes a fresh entry and schedules an unconditional
  \<open>delete OTP[email]\<close> six hours later (the addresses wait in \<open>deletions_v0\<close>), and
  \<open>sendOTP\<close> doubles the limit only while the last send is less than a minute old,
  with the exponent \<open>recentSendCount\<close> itself.\<close>

record mail_ts_state =
  OTP_v0 :: "string \<rightharpoonup> OTPEntry"
  deletions_v0 :: "string list"

definition generateOTP_mail_ts :: "string \<Rightarrow> (nat \<Rightarrow> nat) \<Rightarrow> mail_ts_state \<Rightarrow> mail_ts_state" where
  "generateOTP_mail_ts email rnd st =
     (let tmp = genLoop rnd 0 []
      in st\<lparr>OTP_v0 := (OTP_v0 st)(email \<mapsto>
              \<lparr>code = tmp, lastSendTime = None, recentSendCount = 0\<rparr>),
            deletions_v0 := deletions_v0 st @ [email]\<rparr>)"

text \<open>The branch \<open>else if (email in OTP && OTP[email].lastSendTime) { ... }\<close> of that
  variant: the denial it returns, or the state it falls through with.\<close>

definition rateLimitBranch_mail_ts ::
    "string \<Rightarrow> int \<Rightarrow> mail_ts_state \<Rightarrow> sendOTPResponse + mail_ts_state" where
  "rateLimitBranch_mail_ts email now st =
     (case OTP_v0 st email of
        None \<Rightarrow> Inr st
      | Some entry \<Rightarrow>
          (case lastSendTime entry of
             None \<Rightarrow> Inr st
           | Some t \<Rightarrow>
               if t = 0 then Inr st
               else
                 let timeSinceLastSend = now - t;
                     rateLimit = (if timeSinceLastSend < OTP_RATE_LIMIT_MS
                                  then OTP_RATE_LIMIT_MS * 2 ^ nat (recentSendCount entry)
                                  else OTP_RATE_LIMIT_MS)
                 in if timeSinceLastSend < rateLimit then
                      let secondsLeft = ceilDiv (rateLimit - timeSinceLastSend) 1000
                      in Inl \<lparr>msg = ''Veuillez attendre '' @ showInt secondsLeft
                                    @ '' secondes avant de renvoyer un code'',
                              valid = False\<rparr>
                    else Inr (st\<lparr>OTP_v0 := (OTP_v0 st)(email \<mapsto>
                                 entry\<lparr>recentSendCount := 0\<rparr>)\<rparr>)))"

definition sendOTP_mail_ts ::
    "string list \<Rightarrow> string \<Rightarrow> int \<Rightarrow> (nat \<Rightarrow> nat) \<Rightarrow> bool \<Rightarrow> int \<Rightarrow> mail_ts_state
      \<Rightarrow> sendOTPResponse \<times> mail_ts_state" where
  "sendOTP_mail_ts disposableMails email now rnd delivered now' st =
     (case providerOf email of
        Inl e \<Rightarrow> (errorResponse, st)
      | Inr provider \<Rightarrow>
          if provider \<in> set disposableMails then (disposableResponse, st)
          else (case rateLimitBranch_mail_ts email now st of
                  Inl r \<Rightarrow> (r, st)
                | Inr st1 \<Rightarrow>
                    let st2 = generateOTP_mail_ts email rnd st1
                    in if \<not> delivered then (errorResponse, st2)
                       else (case OTP_v0 st2 email of
                               None \<Rightarrow> (errorResponse, st2)
                             | Some entry \<Rightarrow>
                                 (successResponse,
                                  st2\<lparr>OTP_v0 := (OTP_v0 st2)(email \<mapsto>
                                        entry\<lparr>lastSendTime := Some now',
                                              recentSendCount := recentSendCount entry + 1\<rparr>)\<rparr>))))"

subsection \<open>Concrete inputs\<close>

definition emptyServer :: server_state where
  "emptyServer = \<lparr>OTP = Map.empty, timers = []\<rparr>"

text \<open>Draws that spell the code \<open>123456\<close>, and draws that spell \<open>222222\<close>.\<close>

definition draws123456 :: "nat \<Rightarrow> nat" where
  "draws123456 i = i + 1"

definition draws222222 :: "nat \<Rightarrow> nat" where
  "draws222222 i = 2"

text \<open>A server that holds one entry for \<open>a@b.com\<close>.\<close>

definition serverWith :: "OTPEntry \<Rightarrow> server_state" where
  "serverWith entry = \<lparr>OTP = [''a@b.com'' \<mapsto> entry], timers = []\<rparr>"

text \<open>Two accepted sends in a row, and the server after the first of them.\<close>

definition twoSends :: "(int \<times> (nat \<Rightarrow> nat) \<times> int) list" where
  "twoSends = [(1000, draws123456, 1500), (61500, draws222222, 62000)]"

definition afterFirstSend :: server_state where
  "afterFirstSend =
     \<lparr>OTP = [''a@b.com'' \<mapsto> \<lparr>code = ''123456'', lastSendTime = Some 1500, recentSendCount = 1\<rparr>],
      timers = [(''a@b.com'', 1500)]\<rparr>"

text \<open>A file of disposable providers, one per line.\<close>

definition disposableFile :: string where
  "disposableFile = ''mailinator.com'' @ [char_of (10 :: nat)] @ ''yopmail.com''"

text \<open>What may follow a successful validation of \<open>a@b.com\<close> without a new code for it.\<close>

definition laterEvents :: "event list" where
  "laterEvents =
     [Validate ''a@b.com'' ''123456'', Fire ''a@b.com'' 1500 21601500,
      Request ''c@d.org'' 5000 draws222222, Settle ''c@d.org'' True 5500,
      Validate ''a@b.com'' ''222222'']"

text \<open>A code is sent and validated, and ten seconds after the first send a second code
  is sent to the same address.\<close>

definition resendAfterValidation :: "event list" where
  "resendAfterValidation =
     [Request ''a@b.com'' 1000 draws123456, Settle ''a@b.com'' True 1500,
      Validate ''a@b.com'' ''123456'',
      Request ''a@b.com'' 11000 draws222222, Settle ''a@b.com'' True 11500]"

text \<open>Two calls for one address that are both waiting for \<open>sendMail\<close> at the same time.\<close>

definition twoCallsInFlight :: "event list" where
  "twoCallsInFlight =
     [Request ''a@b.com'' 1000 draws123456, Request ''a@b.com'' 1200 draws222222,
      Settle ''a@b.com'' True 1500, Settle ''a@b.com'' True 1700]"

section \<open>Properties\<close>

subsection \<open>Strings, numbers and generated codes\<close>

lemma split_js_no_separator: "c \<notin> set s \<Longrightarrow> split_js c s = [s]"
  by (induction s) auto

lemma providerOf_without_at: "CHR ''@'' \<notin> set email \<Longrightarrow> providerOf email = Inl TypeError"
  by (simp add: providerOf_def split_js_no_separator)

lemma providerOf_a_b_com: "providerOf ''a@b.com'' = Inr ''b.com''"
  by (simp add: providerOf_def toLowerCase_def lowerChar_def)

lemma providerOf_c_d_org: "providerOf ''c@d.org'' = Inr ''d.org''"
  by (simp add: providerOf_def toLowerCase_def lowerChar_def)

lemma toLowerCase_example: "toLowerCase ''Mailinator.COM'' = ''mailinator.com''"
  by code_simp

lemma load_example: "loadDisposableMails (Some disposableFile) = [''mailinator.com'', ''yopmail.com'']"
  by code_simp

lemma ceilDiv_pos: "0 < x \<Longrightarrow> 0 < d \<Longrightarrow> 1 \<le> ceilDiv x d"
proof -
  assume "0 < x" and "0 < d"
  then have "(- x) div d < 0" by (simp add: div_neg_pos_less0)
  then show ?thesis by (simp add: ceilDiv_def)
qed

lemma ceilDiv_60_ge_3: "120 < s \<Longrightarrow> 3 \<le> ceilDiv s 60"
  unfolding ceilDiv_def by linarith

lemma maxSecondsLeft: "ceilDiv OTP_EXPIRE_MS 1000 = 21600"
  by (simp add: ceilDiv_def OTP_EXPIRE_MS_def)

lemma digitChar_values:
  "digitChar 0 = CHR ''0'' \<and> digitChar (Suc 0) = CHR ''1'' \<and> digitChar 2 = CHR ''2''
   \<and> digitChar 3 = CHR ''3'' \<and> digitChar 4 = CHR ''4'' \<and> digitChar 5 = CHR ''5''
   \<and> digitChar 6 = CHR ''6'' \<and> digitChar 7 = CHR ''7'' \<and> digitChar 8 = CHR ''8''
   \<and> digitChar 9 = CHR ''9''"
  by code_simp

lemma genLoop_length: "length tmp \<le> length (genLoop rnd i tmp)"
proof (induction rnd i tmp rule: genLoop.induct)
  case (1 rnd i tmp)
  show ?case
  proof (cases "i < 6")
    case True
    with 1 have "length (tmp @ digitAt (rnd i)) \<le> length (genLoop rnd i tmp)"
      by (simp add: genLoop.simps [of rnd i tmp])
    then show ?thesis by simp
  next
    case False
    then show ?thesis by (simp add: genLoop.simps [of rnd i tmp])
  qed
qed

lemma digitAt_nonempty: "digitAt d \<noteq> []"
  by (simp add: digitAt_def)

text \<open>A generated code is never the empty string, so \<open>validateOTP\<close> can accept it.\<close>

lemma genLoop_nonempty: "genLoop rnd 0 [] \<noteq> []"
proof -
  have "genLoop rnd 0 [] = genLoop rnd 1 (digitAt (rnd 0))"
    by (subst genLoop.simps) simp
  moreover have "length (digitAt (rnd 0)) \<le> length (genLoop rnd 1 (digitAt (rnd 0)))"
    by (rule genLoop_length)
  ultimately show ?thesis
    using digitAt_nonempty [of "rnd 0"] by (cases "genLoop rnd 0 []") auto
qed

lemma genLoop_draws123456: "genLoop draws123456 0 [] = ''123456''"
  by (simp add: genLoop.simps draws123456_def digitAt_def digits_def)

lemma genLoop_draws222222: "genLoop draws222222 0 [] = ''222222''"
  by (simp add: genLoop.simps draws222222_def digitAt_def digits_def)

subsection \<open>\<open>validateOTP\<close>\<close>

text \<open>
  Claim C4. \<open>validateOTP\<close> returns true exactly when an entry exists for the address,
  the submitted code is not empty and it equals the stored code as a string; then the
  entry of the address is deleted. In every other case it returns false and the whole
  state is as before, so that an attempt with the stored code (generated codes are
  never empty, \<open>genLoop_nonempty\<close>) made after a failed attempt still succeeds.
\<close>

theorem validateOTP_iff:
  "(fst (validateOTP email otp st)
      \<longleftrightarrow> (\<exists>entry. OTP st email = Some entry \<and> otp \<noteq> [] \<and> code entry = otp))
   \<and> (fst (validateOTP email otp st)
      \<longrightarrow> snd (validateOTP email otp st) = st\<lparr>OTP := (OTP st)(email := None)\<rparr>)
   \<and> (\<not> fst (validateOTP email otp st) \<longrightarrow> snd (validateOTP email otp st) = st)
   \<and> (\<not> fst (validateOTP email otp st) \<and> OTP st email = Some entry' \<and> code entry' \<noteq> []
      \<longrightarrow> fst (validateOTP email (code entry') (snd (validateOTP email otp st))))"
  by (auto simp: validateOTP_def split: option.splits)

theorem validateOTP_iff_witness:
  "fst (validateOTP ''a@b.com'' ''123456''
         (serverWith \<lparr>code = ''123456'', lastSendTime = Some 1000, recentSendCount = 1\<rparr>))
   \<and> OTP (snd (validateOTP ''a@b.com'' ''123456''
         (serverWith \<lparr>code = ''123456'', lastSendTime = Some 1000, recentSendCount = 1\<rparr>)))
        ''a@b.com'' = None
   \<and> \<not> fst (validateOTP ''a@b.com'' ''654321''
         (serverWith \<lparr>code = ''123456'', lastSendTime = Some 1000, recentSendCount = 1\<rparr>))
   \<and> fst (validateOTP ''a@b.com'' ''123456''
         (snd (validateOTP ''a@b.com'' ''654321''
           (serverWith \<lparr>code = ''123456'', lastSendTime = Some 1000, recentSendCount = 1\<rparr>))))"
proof -
  let ?e = "\<lparr>code = ''123456'', lastSendTime = Some 1000, recentSendCount = 1\<rparr>"
  have stored: "OTP (serverWith ?e) ''a@b.com'' = Some ?e"
    by (simp add: serverWith_def)
  have good: "fst (validateOTP ''a@b.com'' ''123456'' (serverWith ?e))"
    using validateOTP_iff [of "''a@b.com''" "''123456''" "serverWith ?e" ?e] stored by simp
  have gone: "OTP (snd (validateOTP ''a@b.com'' ''123456'' (serverWith ?e))) ''a@b.com'' = None"
    using validateOTP_iff [of "''a@b.com''" "''123456''" "serverWith ?e" ?e] good by simp
  have bad: "\<not> fst (validateOTP ''a@b.com'' ''654321'' (serverWith ?e))"
    using validateOTP_iff [of "''a@b.com''" "''654321''" "serverWith ?e" ?e] stored by simp
  have "\<not> fst (validateOTP ''a@b.com'' ''654321'' (serverWith ?e))
          \<and> OTP (serverWith ?e) ''a@b.com'' = Some ?e \<and> code ?e \<noteq> []
        \<longrightarrow> fst (validateOTP ''a@b.com'' (code ?e)
              (snd (validateOTP ''a@b.com'' ''654321'' (serverWith ?e))))"
    using validateOTP_iff [of "''a@b.com''" "''654321''" "serverWith ?e" ?e] by blast
  then have again: "fst (validateOTP ''a@b.com'' ''123456''
                 (snd (validateOTP ''a@b.com'' ''654321'' (serverWith ?e))))"
    using stored bad by simp
  from good gone bad again show ?thesis by blast
qed

subsection \<open>\<open>generateOTP\<close>\<close>

text \<open>
  Claim C5. \<open>generateOTP\<close> replaces only the field \<open>code\<close> of an existing entry:
  \<open>lastSendTime\<close> and \<open>recentSendCount\<close> are kept. Where the address had no entry it
  creates one with \<open>recentSendCount = 0\<close> and no \<open>lastSendTime\<close>. The entries of the
  other addresses and the pending timers are not touched.
\<close>

theorem generateOTP_frame:
  "(OTP st email = Some prev \<longrightarrow>
      OTP (generateOTP email rnd st) email =
        Some (prev\<lparr>code := genLoop rnd 0 []\<rparr>))
   \<and> (OTP st email = None \<longrightarrow>
      OTP (generateOTP email rnd st) email =
        Some \<lparr>code = genLoop rnd 0 [], lastSendTime = None, recentSendCount = 0\<rparr>)
   \<and> (other \<noteq> email \<longrightarrow> OTP (generateOTP email rnd st) other = OTP st other)
   \<and> timers (generateOTP email rnd st) = timers st"
  by (auto simp: generateOTP_def Let_def)

theorem generateOTP_frame_witness:
  "OTP (generateOTP ''a@b.com'' draws222222
          (serverWith \<lparr>code = ''123456'', lastSendTime = Some 1000, recentSendCount = 3\<rparr>))
       ''a@b.com''
     = Some \<lparr>code = ''222222'', lastSendTime = Some 1000, recentSendCount = 3\<rparr>
   \<and> OTP (generateOTP ''a@b.com'' draws123456 emptyServer) ''a@b.com''
     = Some \<lparr>code = ''123456'', lastSendTime = None, recentSendCount = 0\<rparr>
   \<and> OTP (generateOTP ''a@b.com'' draws123456
          (serverWith \<lparr>code = ''123456'', lastSendTime = Some 1000, recentSendCount = 3\<rparr>))
       ''c@d.org'' = None"
proof -
  let ?e = "\<lparr>code = ''123456'', lastSendTime = Some 1000, recentSendCount = 3\<rparr>"
  have "OTP (serverWith ?e) ''a@b.com'' = Some ?e"
    by (simp add: serverWith_def)
  then have a: "OTP (generateOTP ''a@b.com'' draws222222 (serverWith ?e)) ''a@b.com''
      = Some \<lparr>code = ''222222'', lastSendTime = Some 1000, recentSendCount = 3\<rparr>"
    using generateOTP_frame [of "serverWith ?e" "''a@b.com''" ?e draws222222]
    by (simp add: genLoop_draws222222)
  have "OTP emptyServer ''a@b.com'' = None"
    by (simp add: emptyServer_def)
  then have b: "OTP (generateOTP ''a@b.com'' draws123456 emptyServer) ''a@b.com''
      = Some \<lparr>code = ''123456'', lastSendTime = None, recentSendCount = 0\<rparr>"
    using generateOTP_frame [of emptyServer "''a@b.com''" _ draws123456]
    by (simp add: genLoop_draws123456)
  have "''c@d.org'' \<noteq> ''a@b.com''" by simp
  then have c: "OTP (generateOTP ''a@b.com'' draws123456 (serverWith ?e)) ''c@d.org'' = None"
    using generateOTP_frame [of "serverWith ?e" "''a@b.com''" _ draws123456 "''c@d.org''"]
    by (simp add: serverWith_def)
  from a b c show ?thesis by blast
qed

lemma generateOTP_entry:
  "OTP (generateOTP email rnd st) email =
     Some \<lparr>code = genLoop rnd 0 [],
           lastSendTime = (case OTP st email of None \<Rightarrow> None | Some p \<Rightarrow> lastSendTime p),
           recentSendCount = (case OTP st email of None \<Rightarrow> 0 | Some p \<Rightarrow> recentSendCount p)\<rparr>"
  by (simp add: generateOTP_def Let_def)

lemma generateOTP_other: "other \<noteq> email \<Longrightarrow> OTP (generateOTP email rnd st) other = OTP st other"
  by (simp add: generateOTP_def Let_def)

subsection \<open>The parts of \<open>sendOTP\<close>\<close>

lemma valid_responses [simp]:
  "valid successResponse" "\<not> valid errorResponse" "\<not> valid disposableResponse"
  by (simp_all add: successResponse_def errorResponse_def disposableResponse_def)

lemma rateLimitBranch_Some:
  "rateLimitBranch email now st = Some r \<Longrightarrow>
     \<not> valid r \<and> (\<exists>rest. msg r = ''Veuillez attendre '' @ rest)"
  by (auto simp: rateLimitBranch_def Let_def split: option.splits if_splits)

lemma rateLimitBranch_decision:
  assumes "OTP st email = Some entry" "lastSendTime entry = Some t" "t \<noteq> 0"
  shows "(rateLimitBranch email now st = None)
          \<longleftrightarrow> OTP_RATE_LIMIT_MS * 2 ^ nat (max 0 (recentSendCount entry - 1)) \<le> now - t"
  using assms by (auto simp: rateLimitBranch_def Let_def)

lemma rateLimitBranch_message:
  assumes "OTP st email = Some entry" and "lastSendTime entry = Some t" and "t \<noteq> 0"
    and "now - t < OTP_RATE_LIMIT_MS * 2 ^ nat (max 0 (recentSendCount entry - 1))"
    and "secs = min (ceilDiv (OTP_RATE_LIMIT_MS * 2 ^ nat (max 0 (recentSendCount entry - 1))
                               - (now - t)) 1000) 21600"
  shows "rateLimitBranch email now st =
           Some \<lparr>msg = ''Veuillez attendre ''
                   @ (if 120 < secs then showInt (ceilDiv secs 60) @ '' minutes''
                      else showInt secs @ (if secs = 1 then '' seconde'' else '' secondes''))
                   @ waitSuffix,
                 valid = False\<rparr>"
    and "1 \<le> secs"
proof -
  let ?limit = "OTP_RATE_LIMIT_MS * 2 ^ nat (max 0 (recentSendCount entry - 1))"
  from assms(4) have "0 < ?limit - (now - t)" by simp
  then have "1 \<le> ceilDiv (?limit - (now - t)) 1000"
    by (rule ceilDiv_pos) simp
  with assms(5) show one: "1 \<le> secs" by simp
  have three: "120 < secs \<Longrightarrow> 1 < ceilDiv secs 60"
    using ceilDiv_60_ge_3 [of secs] by simp
  show "rateLimitBranch email now st =
           Some \<lparr>msg = ''Veuillez attendre ''
                   @ (if 120 < secs then showInt (ceilDiv secs 60) @ '' minutes''
                      else showInt secs @ (if secs = 1 then '' seconde'' else '' secondes''))
                   @ waitSuffix,
                 valid = False\<rparr>"
    using assms(1-4) one three
    unfolding rateLimitBranch_def maxSecondsLeft assms(5) [symmetric] Let_def
    by (auto simp: assms(5) [symmetric])
qed

lemma sendOTP_request_passed:
  assumes "providerOf email = Inr provider" and "provider \<notin> set disposableMails"
  shows "sendOTP_request disposableMails email now rnd st =
           (case rateLimitBranch email now st of
              Some r \<Rightarrow> Inr (Inl r)
            | None \<Rightarrow> Inr (Inr (generateOTP email rnd st)))"
  using assms by (simp add: sendOTP_request_def)

lemma sendOTP_request_generated:
  "sendOTP_request disposableMails email now rnd st = Inr (Inr st1) \<Longrightarrow>
     st1 = generateOTP email rnd st"
  by (auto simp: sendOTP_request_def split: sum.splits if_splits option.splits)

lemma sendOTP_settle_commit:
  "OTP st email = Some entry \<Longrightarrow>
     sendOTP_settle email True now st =
       Inr (successResponse,
            \<lparr>OTP = (OTP st)(email \<mapsto> entry\<lparr>lastSendTime := Some now,
                                             recentSendCount := recentSendCount entry + 1\<rparr>),
             timers = timers st @ [(email, now)]\<rparr>)"
  by (simp add: sendOTP_settle_def scheduleOtpExpiry_def Let_def)

lemma sendOTP_settle_failed: "sendOTP_settle email False now st = Inl SendMailError"
  by (simp add: sendOTP_settle_def)

lemma sendOTP_delivered_valid_iff:
  assumes "providerOf email = Inr provider" and "provider \<notin> set disposableMails"
  shows "valid (fst (sendOTP disposableMails email now rnd True now' st))
           \<longleftrightarrow> rateLimitBranch email now st = None"
proof (cases "rateLimitBranch email now st")
  case None
  then show ?thesis
    by (simp add: sendOTP_def sendOTP_request_passed [OF assms]
        sendOTP_settle_commit [OF generateOTP_entry])
next
  case (Some r)
  then show ?thesis
    using rateLimitBranch_Some [OF Some]
    by (simp add: sendOTP_def sendOTP_request_passed [OF assms])
qed

subsection \<open>\<open>sendOTP\<close>: addresses without a provider\<close>

text \<open>
  Claim C10. For an address that contains no \<open>@\<close>, \<open>split("@")[1]\<close> is undefined and
  the call of \<open>toLowerCase\<close> throws; the \<open>catch\<close> turns that into the generic error
  message with \<open>valid = false\<close>, and the state (every entry and every timer) is as
  before.
\<close>

theorem sendOTP_without_at:
  "CHR ''@'' \<notin> set email \<Longrightarrow>
     sendOTP disposableMails email now rnd delivered now' st = (errorResponse, st)
     \<and> \<not> valid errorResponse"
  by (simp add: sendOTP_def sendOTP_request_def providerOf_without_at errorResponse_def)

theorem sendOTP_without_at_witness:
  "CHR ''@'' \<notin> set ''ab.com''
   \<and> sendOTP [] ''ab.com'' 1000 draws123456 True 1001
        (serverWith \<lparr>code = ''123456'', lastSendTime = Some 1000, recentSendCount = 3\<rparr>)
      = (errorResponse,
         serverWith \<lparr>code = ''123456'', lastSendTime = Some 1000, recentSendCount = 3\<rparr>)"
proof -
  have h: "CHR ''@'' \<notin> set ''ab.com''" by simp
  show ?thesis using h sendOTP_without_at [OF h] by simp
qed

subsection \<open>\<open>sendOTP\<close>: disposable providers\<close>

lemma response_not_disposable:
  "successResponse \<noteq> disposableResponse" "errorResponse \<noteq> disposableResponse"
  "rateLimitBranch email now st = Some r \<Longrightarrow> r \<noteq> disposableResponse"
proof -
  show "successResponse \<noteq> disposableResponse" using valid_responses by metis
  show "errorResponse \<noteq> disposableResponse"
    by (simp add: errorResponse_def disposableResponse_def)
  assume "rateLimitBranch email now st = Some r"
  from rateLimitBranch_Some [OF this] obtain rest where "msg r = ''Veuillez attendre '' @ rest"
    by blast
  then show "r \<noteq> disposableResponse"
    by (auto simp: disposableResponse_def)
qed

text \<open>
  Claim C9. When the second \<open>@\<close>-separated field of the address, in lower case, is in
  the list of disposable providers, \<open>sendOTP\<close> answers with the fixed message and
  \<open>valid = false\<close> whatever the store holds and whatever the clock reads (the
  rate-limit branch is the \<open>else\<close> of this test), and the state is as before. When
  \<open>readFileSync\<close> throws at start-up the list is empty, and then no call is answered
  with that message.
\<close>

theorem sendOTP_disposable:
  "(split_js CHR ''@'' email = local # domain # rest
      \<and> toLowerCase domain \<in> set disposableMails \<longrightarrow>
        sendOTP disposableMails email now rnd delivered now' st = (disposableResponse, st))
   \<and> \<not> valid disposableResponse
   \<and> loadDisposableMails None = []
   \<and> fst (sendOTP (loadDisposableMails None) email now rnd delivered now' st)
        \<noteq> disposableResponse"
proof (intro conjI impI)
  assume "split_js CHR ''@'' email = local # domain # rest
      \<and> toLowerCase domain \<in> set disposableMails"
  then show "sendOTP disposableMails email now rnd delivered now' st = (disposableResponse, st)"
    by (simp add: sendOTP_def sendOTP_request_def providerOf_def)
next
  show "\<not> valid disposableResponse" by simp
next
  show "loadDisposableMails None = []" by (simp add: loadDisposableMails_def)
next
  have l: "loadDisposableMails None = []" by (simp add: loadDisposableMails_def)
  show "fst (sendOTP (loadDisposableMails None) email now rnd delivered now' st)
        \<noteq> disposableResponse"
    unfolding l sendOTP_def sendOTP_request_def sendOTP_settle_def Let_def
    by (auto simp: response_not_disposable split: sum.splits option.splits)
qed

theorem sendOTP_disposable_witness:
  "sendOTP (loadDisposableMails (Some disposableFile)) ''x@Mailinator.COM'' 1000 draws123456
      True 1500 emptyServer = (disposableResponse, emptyServer)"
proof -
  have "split_js CHR ''@'' ''x@Mailinator.COM'' = ''x'' # ''Mailinator.COM'' # []
      \<and> toLowerCase ''Mailinator.COM'' \<in> set (loadDisposableMails (Some disposableFile))"
    by (simp add: toLowerCase_example load_example)
  with sendOTP_disposable [of "''x@Mailinator.COM''" "''x''" "''Mailinator.COM''" "[]"
      "loadDisposableMails (Some disposableFile)" 1000 draws123456 True 1500 emptyServer]
  show ?thesis by blast
qed

subsection \<open>\<open>sendOTP\<close>: the rate limiter\<close>

text \<open>
  Claim C6. A call of \<open>sendOTP\<close> that the rate limiter denies (the address has a
  provider that is not disposable, its entry has a \<open>lastSendTime\<close>, and the time
  since then is below the limit) answers with \<open>valid = false\<close> and returns the state
  it was given: the entry of the address, with its \<open>lastSendTime\<close> and
  \<open>recentSendCount\<close>, is the same after the call as before.
\<close>

theorem sendOTP_denied_unchanged:
  assumes "providerOf email = Inr provider" and "provider \<notin> set disposableMails"
    and "OTP st email = Some entry" and "lastSendTime entry = Some t" and "t \<noteq> 0"
    and "now - t < OTP_RATE_LIMIT_MS * 2 ^ nat (max 0 (recentSendCount entry - 1))"
  shows "snd (sendOTP disposableMails email now rnd delivered now' st) = st
         \<and> \<not> valid (fst (sendOTP disposableMails email now rnd delivered now' st))
         \<and> OTP (snd (sendOTP disposableMails email now rnd delivered now' st)) email = Some entry"
proof -
  from assms(3-6) obtain r where r: "rateLimitBranch email now st = Some r"
    using rateLimitBranch_decision [of st email entry t now] by fastforce
  then have "sendOTP disposableMails email now rnd delivered now' st = (r, st)"
    using assms(1,2) by (simp add: sendOTP_def sendOTP_request_def)
  moreover have "\<not> valid r" using r by (simp add: rateLimitBranch_Some)
  ultimately show ?thesis using assms(3) by simp
qed

theorem sendOTP_denied_unchanged_witness:
  "snd (sendOTP [] ''a@b.com'' 31500 draws222222 True 32000 afterFirstSend) = afterFirstSend
   \<and> \<not> valid (fst (sendOTP [] ''a@b.com'' 31500 draws222222 True 32000 afterFirstSend))
   \<and> OTP (snd (sendOTP [] ''a@b.com'' 31500 draws222222 True 32000 afterFirstSend)) ''a@b.com''
       = Some \<lparr>code = ''123456'', lastSendTime = Some 1500, recentSendCount = 1\<rparr>"
proof -
  let ?e = "\<lparr>code = ''123456'', lastSendTime = Some 1500, recentSendCount = 1\<rparr>"
  have d: "''b.com'' \<notin> set []" by simp
  have e: "OTP afterFirstSend ''a@b.com'' = Some ?e" by (simp add: afterFirstSend_def)
  have t: "lastSendTime ?e = Some 1500" "(1500::int) \<noteq> 0" by simp_all
  have lt: "31500 - 1500 < OTP_RATE_LIMIT_MS * 2 ^ nat (max 0 (recentSendCount ?e - 1))"
    by (simp add: OTP_RATE_LIMIT_MS_def)
  show ?thesis
    by (rule sendOTP_denied_unchanged [OF providerOf_a_b_com d e t lt])
qed

text \<open>An accepted call has committed: the entry carries the commit time and one more send.\<close>

lemma sendOTP_accepted:
  assumes "valid (fst (sendOTP disposableMails email now rnd True now' st))"
  shows "\<exists>entry. OTP (snd (sendOTP disposableMails email now rnd True now' st)) email = Some entry
           \<and> lastSendTime entry = Some now'
           \<and> recentSendCount entry =
               (case OTP st email of None \<Rightarrow> 0 | Some p \<Rightarrow> recentSendCount p) + 1"
proof (cases "sendOTP_request disposableMails email now rnd st")
  case (Inl e)
  with assms show ?thesis by (simp add: sendOTP_def)
next
  case (Inr x)
  show ?thesis
  proof (cases x)
    case (Inl r)
    with Inr have "rateLimitBranch email now st = Some r \<or> r = disposableResponse"
      by (auto simp: sendOTP_request_def split: sum.splits if_splits option.splits)
    then have "\<not> valid r" using rateLimitBranch_Some by auto
    with assms Inr Inl show ?thesis by (simp add: sendOTP_def)
  next
    case (Inr st1)
    with \<open>sendOTP_request disposableMails email now rnd st = Inr x\<close>
    have st1: "st1 = generateOTP email rnd st"
      by (auto simp: sendOTP_request_def split: sum.splits if_splits option.splits)
    show ?thesis
      using \<open>sendOTP_request disposableMails email now rnd st = Inr x\<close> Inr
      by (simp add: sendOTP_def st1 sendOTP_settle_commit [OF generateOTP_entry])
  qed
qed

lemma sendAll_count:
  "calls \<noteq> [] \<Longrightarrow> allAccepted disposableMails email calls st \<Longrightarrow>
     \<exists>entry. OTP (sendAll disposableMails email calls st) email = Some entry
       \<and> lastSendTime entry = Some (snd (snd (last calls)))
       \<and> recentSendCount entry =
           (case OTP st email of None \<Rightarrow> 0 | Some p \<Rightarrow> recentSendCount p) + int (length calls)"
proof (induction calls arbitrary: st)
  case Nil
  then show ?case by simp
next
  case (Cons c calls)
  obtain now rnd now' where c: "c = (now, rnd, now')" by (cases c) auto
  let ?st1 = "snd (sendOTP disposableMails email now rnd True now' st)"
  from Cons.prems c have acc: "valid (fst (sendOTP disposableMails email now rnd True now' st))"
    and rest: "allAccepted disposableMails email calls ?st1" by simp_all
  from sendOTP_accepted [OF acc] obtain e1 where e1: "OTP ?st1 email = Some e1"
    "lastSendTime e1 = Some now'"
    "recentSendCount e1 = (case OTP st email of None \<Rightarrow> 0 | Some p \<Rightarrow> recentSendCount p) + 1"
    by blast
  show ?case
  proof (cases "calls = []")
    case True
    with e1 c show ?thesis by simp
  next
    case False
    from Cons.IH [OF False rest] e1 c False show ?thesis by auto
  qed
qed

lemma first_send:
  "sendOTP [] ''a@b.com'' 1000 draws123456 True 1500 emptyServer = (successResponse, afterFirstSend)"
  by (simp add: sendOTP_def sendOTP_request_def providerOf_a_b_com rateLimitBranch_def
      emptyServer_def generateOTP_def sendOTP_settle_def scheduleOtpExpiry_def Let_def
      genLoop_draws123456 afterFirstSend_def)

lemma second_send:
  "valid (fst (sendOTP [] ''a@b.com'' 61500 draws222222 True 62000 afterFirstSend))"
  by (simp add: sendOTP_def sendOTP_request_def providerOf_a_b_com rateLimitBranch_def
      generateOTP_def sendOTP_settle_def scheduleOtpExpiry_def Let_def
      genLoop_draws222222 afterFirstSend_def OTP_RATE_LIMIT_MS_def)

text \<open>
  Claim C1. For an address whose entry has a \<open>lastSendTime\<close> \<open>t\<close> (a clock value,
  so not 0), a call whose mail is delivered is accepted exactly when the time since
  \<open>t\<close> has reached \<open>OTP_RATE_LIMIT_MS * 2 ^ max(0, recentSendCount - 1)\<close>. After
  \<open>N \<ge> 1\<close> consecutive accepted sends to an address that had no entry, the next call
  is accepted exactly when the time since the last commit has reached
  \<open>OTP_RATE_LIMIT_MS * 2 ^ (N - 1)\<close>.
\<close>

theorem sendOTP_backoff:
  assumes "providerOf email = Inr provider" and "provider \<notin> set disposableMails"
  shows "(OTP st email = Some entry \<and> lastSendTime entry = Some t \<and> t \<noteq> 0 \<longrightarrow>
            (valid (fst (sendOTP disposableMails email now rnd True now' st))
              \<longleftrightarrow> OTP_RATE_LIMIT_MS * 2 ^ nat (max 0 (recentSendCount entry - 1)) \<le> now - t))
         \<and> (OTP st0 email = None \<and> calls \<noteq> [] \<and> allAccepted disposableMails email calls st0
              \<and> snd (snd (last calls)) \<noteq> 0 \<longrightarrow>
            (valid (fst (sendOTP disposableMails email now rnd True now'
                          (sendAll disposableMails email calls st0)))
              \<longleftrightarrow> OTP_RATE_LIMIT_MS * 2 ^ (length calls - 1) \<le> now - snd (snd (last calls))))"
proof (intro conjI impI)
  assume "OTP st email = Some entry \<and> lastSendTime entry = Some t \<and> t \<noteq> 0"
  then show "valid (fst (sendOTP disposableMails email now rnd True now' st))
              \<longleftrightarrow> OTP_RATE_LIMIT_MS * 2 ^ nat (max 0 (recentSendCount entry - 1)) \<le> now - t"
    using rateLimitBranch_decision [of st email entry t now]
    by (simp add: sendOTP_delivered_valid_iff [OF assms])
next
  assume a: "OTP st0 email = None \<and> calls \<noteq> [] \<and> allAccepted disposableMails email calls st0
              \<and> snd (snd (last calls)) \<noteq> 0"
  let ?st = "sendAll disposableMails email calls st0"
  from a sendAll_count [of calls disposableMails email st0]
  obtain entry where e: "OTP ?st email = Some entry"
      "lastSendTime entry = Some (snd (snd (last calls)))"
      "recentSendCount entry = int (length calls)"
    by auto
  from a have "0 < length calls" by simp
  then have "nat (max 0 (int (length calls) - 1)) = length calls - 1" by simp
  with e a show "valid (fst (sendOTP disposableMails email now rnd True now' ?st))
              \<longleftrightarrow> OTP_RATE_LIMIT_MS * 2 ^ (length calls - 1) \<le> now - snd (snd (last calls))"
    using rateLimitBranch_decision [of ?st email entry "snd (snd (last calls))" now]
    by (simp add: sendOTP_delivered_valid_iff [OF assms])
qed

theorem sendOTP_backoff_witness:
  "valid (fst (sendOTP [] ''a@b.com'' 182000 draws123456 True 182500
                 (sendAll [] ''a@b.com'' twoSends emptyServer)))
   \<and> \<not> valid (fst (sendOTP [] ''a@b.com'' 181999 draws123456 True 182500
                 (sendAll [] ''a@b.com'' twoSends emptyServer)))
   \<and> valid (fst (sendOTP [] ''a@b.com'' 61500 draws222222 True 62000 afterFirstSend))
   \<and> \<not> valid (fst (sendOTP [] ''a@b.com'' 61499 draws222222 True 62000 afterFirstSend))"
proof -
  have p: "providerOf ''a@b.com'' = Inr ''b.com''" by (rule providerOf_a_b_com)
  have d: "''b.com'' \<notin> set []" by simp
  have acc: "allAccepted [] ''a@b.com'' twoSends emptyServer"
    by (simp add: twoSends_def first_send second_send)
  have fresh: "OTP emptyServer ''a@b.com'' = None" by (simp add: emptyServer_def)
  have ne: "twoSends \<noteq> []" "snd (snd (last twoSends)) = 62000" "length twoSends = 2"
    by (simp_all add: twoSends_def)
  have e: "OTP afterFirstSend ''a@b.com''
             = Some \<lparr>code = ''123456'', lastSendTime = Some 1500, recentSendCount = 1\<rparr>"
    by (simp add: afterFirstSend_def)
  note n = sendOTP_backoff [OF p d, where ?st0.0 = emptyServer and calls = twoSends
      and st = afterFirstSend and t = 1500 and now' = 182500 and rnd = draws123456
      and entry = "\<lparr>code = ''123456'', lastSendTime = Some 1500, recentSendCount = 1\<rparr>"]
  note m = sendOTP_backoff [OF p d, where ?st0.0 = emptyServer and calls = twoSends
      and st = afterFirstSend and t = 1500 and now' = 62000 and rnd = draws222222
      and entry = "\<lparr>code = ''123456'', lastSendTime = Some 1500, recentSendCount = 1\<rparr>"]
  have a: "valid (fst (sendOTP [] ''a@b.com'' 182000 draws123456 True 182500
                 (sendAll [] ''a@b.com'' twoSends emptyServer)))"
    using n [of 182000] acc fresh ne by (simp add: OTP_RATE_LIMIT_MS_def)
  have b: "\<not> valid (fst (sendOTP [] ''a@b.com'' 181999 draws123456 True 182500
                 (sendAll [] ''a@b.com'' twoSends emptyServer)))"
    using n [of 181999] acc fresh ne by (simp add: OTP_RATE_LIMIT_MS_def)
  have c: "valid (fst (sendOTP [] ''a@b.com'' 61500 draws222222 True 62000 afterFirstSend))"
    using m [of 61500] e by (simp add: OTP_RATE_LIMIT_MS_def)
  have c': "\<not> valid (fst (sendOTP [] ''a@b.com'' 61499 draws222222 True 62000 afterFirstSend))"
    using m [of 61499] e by (simp add: OTP_RATE_LIMIT_MS_def)
  from a b c c' show ?thesis by blast
qed

text \<open>
  Claim C7, amended. The limit of the decision is \<open>OTP_RATE_LIMIT_MS * 2 ^ exponent\<close>
  with no cap: the call is denied when the time since the last send is below it, also
  beyond the six hours of validity, and passes to \<open>generateOTP\<close> otherwise. Only the
  wait that the denial reports is clamped: it is \<open>ceil((limit - elapsed) / 1000)\<close>
  seconds, at most \<open>ceil(OTP_EXPIRE_MS / 1000) = 21600\<close> and at least 1, shown in
  minutes (\<open>ceil(seconds / 60)\<close>, at least 3, so always plural) when it exceeds 120 and
  in seconds otherwise, singular exactly when the number shown is 1.
\<close>

theorem sendOTP_rate_limited_message:
  assumes "providerOf email = Inr provider" and "provider \<notin> set disposableMails"
    and "OTP st email = Some entry" and "lastSendTime entry = Some t" and "t \<noteq> 0"
    and "limit = OTP_RATE_LIMIT_MS * 2 ^ nat (max 0 (recentSendCount entry - 1))"
    and "secs = min (ceilDiv (limit - (now - t)) 1000) (ceilDiv OTP_EXPIRE_MS 1000)"
  shows "(now - t < limit \<longrightarrow>
            sendOTP disposableMails email now rnd delivered now' st =
              (\<lparr>msg = ''Veuillez attendre ''
                   @ (if 120 < secs then showInt (ceilDiv secs 60) @ '' minutes''
                      else showInt secs @ (if secs = 1 then '' seconde'' else '' secondes''))
                   @ waitSuffix,
                 valid = False\<rparr>, st)
            \<and> 1 \<le> secs \<and> secs \<le> 21600)
         \<and> (limit \<le> now - t \<longrightarrow>
            sendOTP_request disposableMails email now rnd st
              = Inr (Inr (generateOTP email rnd st)))"
proof (intro conjI impI)
  assume lt: "now - t < limit"
  have s: "secs = min (ceilDiv (OTP_RATE_LIMIT_MS * 2 ^ nat (max 0 (recentSendCount entry - 1))
                               - (now - t)) 1000) 21600"
    using assms(6,7) by (simp add: maxSecondsLeft)
  from lt assms(6)
  have lt': "now - t < OTP_RATE_LIMIT_MS * 2 ^ nat (max 0 (recentSendCount entry - 1))" by simp
  note r = rateLimitBranch_message [OF assms(3,4,5) lt' s]
  show "sendOTP disposableMails email now rnd delivered now' st =
              (\<lparr>msg = ''Veuillez attendre ''
                   @ (if 120 < secs then showInt (ceilDiv secs 60) @ '' minutes''
                      else showInt secs @ (if secs = 1 then '' seconde'' else '' secondes''))
                   @ waitSuffix,
                 valid = False\<rparr>, st)"
    by (simp add: sendOTP_def sendOTP_request_passed [OF assms(1,2)] r(1))
  show "1 \<le> secs" by (rule r(2))
  show "secs \<le> 21600" using s by simp
next
  assume "limit \<le> now - t"
  then have "rateLimitBranch email now st = None"
    using rateLimitBranch_decision [OF assms(3,4,5), of now] assms(6) by simp
  then show "sendOTP_request disposableMails email now rnd st
              = Inr (Inr (generateOTP email rnd st))"
    by (simp add: sendOTP_request_passed [OF assms(1,2)])
qed

theorem sendOTP_rate_limited_message_witness:
  "sendOTP [] ''a@b.com'' 31500 draws222222 True 32000 afterFirstSend
     = (\<lparr>msg = ''Veuillez attendre 30 secondes'' @ waitSuffix, valid = False\<rparr>, afterFirstSend)
   \<and> sendOTP [] ''a@b.com'' 61499 draws222222 True 62000 afterFirstSend
     = (\<lparr>msg = ''Veuillez attendre 1 seconde'' @ waitSuffix, valid = False\<rparr>, afterFirstSend)
   \<and> sendOTP_request [] ''a@b.com'' 61500 draws222222 afterFirstSend
     = Inr (Inr (generateOTP ''a@b.com'' draws222222 afterFirstSend))
   \<and> sendOTP [] ''a@b.com'' 2000 draws222222 True 2500
        (serverWith \<lparr>code = ''123456'', lastSendTime = Some 1000, recentSendCount = 3\<rparr>)
     = (\<lparr>msg = ''Veuillez attendre 4 minutes'' @ waitSuffix, valid = False\<rparr>,
        serverWith \<lparr>code = ''123456'', lastSendTime = Some 1000, recentSendCount = 3\<rparr>)
   \<and> sendOTP [] ''a@b.com'' 2000 draws222222 True 2500
        (serverWith \<lparr>code = ''123456'', lastSendTime = Some 1000, recentSendCount = 10\<rparr>)
     = (\<lparr>msg = ''Veuillez attendre 360 minutes'' @ waitSuffix, valid = False\<rparr>,
        serverWith \<lparr>code = ''123456'', lastSendTime = Some 1000, recentSendCount = 10\<rparr>)"
proof -
  let ?e = "\<lparr>code = ''123456'', lastSendTime = Some 1500, recentSendCount = 1\<rparr>"
  let ?e3 = "\<lparr>code = ''123456'', lastSendTime = Some 1000, recentSendCount = 3\<rparr>"
  let ?e10 = "\<lparr>code = ''123456'', lastSendTime = Some 1000, recentSendCount = 10\<rparr>"
  have e10: "OTP (serverWith ?e10) ''a@b.com'' = Some ?e10" by (simp add: serverWith_def)
  have t10: "lastSendTime ?e10 = Some 1000" by simp
  have d: "''b.com'' \<notin> set []" by simp
  have e: "OTP afterFirstSend ''a@b.com'' = Some ?e" by (simp add: afterFirstSend_def)
  have t: "lastSendTime ?e = Some 1500" "(1500::int) \<noteq> 0" by simp_all
  have e3: "OTP (serverWith ?e3) ''a@b.com'' = Some ?e3" by (simp add: serverWith_def)
  have t3: "lastSendTime ?e3 = Some 1000" "(1000::int) \<noteq> 0" by simp_all
  have dec: "showInt 30 = ''30''" "showInt 1 = ''1''" "showInt 4 = ''4''" "showInt 360 = ''360''"
    by (simp_all add: showInt_def showNat.simps digitChar_values)
  note th = sendOTP_rate_limited_message [OF providerOf_a_b_com d e t refl refl]
  note th3 = sendOTP_rate_limited_message [OF providerOf_a_b_com d e3 t3 refl refl]
  note th10 = sendOTP_rate_limited_message [OF providerOf_a_b_com d e10 t10 t3(2) refl refl]
  have a: "sendOTP [] ''a@b.com'' 31500 draws222222 True 32000 afterFirstSend
     = (\<lparr>msg = ''Veuillez attendre 30 secondes'' @ waitSuffix, valid = False\<rparr>, afterFirstSend)"
    using th [of 31500 draws222222 True 32000]
    by (simp add: OTP_RATE_LIMIT_MS_def OTP_EXPIRE_MS_def ceilDiv_def dec)
  have b: "sendOTP [] ''a@b.com'' 61499 draws222222 True 62000 afterFirstSend
     = (\<lparr>msg = ''Veuillez attendre 1 seconde'' @ waitSuffix, valid = False\<rparr>, afterFirstSend)"
    using th [of 61499 draws222222 True 62000]
    by (simp add: OTP_RATE_LIMIT_MS_def OTP_EXPIRE_MS_def ceilDiv_def dec)
  have c: "sendOTP_request [] ''a@b.com'' 61500 draws222222 afterFirstSend
     = Inr (Inr (generateOTP ''a@b.com'' draws222222 afterFirstSend))"
    using th [of 61500 draws222222 True 62000]
    by (simp add: OTP_RATE_LIMIT_MS_def)
  have f: "sendOTP [] ''a@b.com'' 2000 draws222222 True 2500 (serverWith ?e3)
     = (\<lparr>msg = ''Veuillez attendre 4 minutes'' @ waitSuffix, valid = False\<rparr>, serverWith ?e3)"
    using th3 [of 2000 draws222222 True 2500]
    by (simp add: OTP_RATE_LIMIT_MS_def OTP_EXPIRE_MS_def ceilDiv_def dec)
  have g: "sendOTP [] ''a@b.com'' 2000 draws222222 True 2500 (serverWith ?e10)
     = (\<lparr>msg = ''Veuillez attendre 360 minutes'' @ waitSuffix, valid = False\<rparr>,
        serverWith ?e10)"
    using th10 [of 2000 draws222222 True 2500]
    by (simp add: OTP_RATE_LIMIT_MS_def OTP_EXPIRE_MS_def ceilDiv_def dec)
  from a b c f g show ?thesis by blast
qed

text \<open>The limit is not capped at the validity window: with ten sends counted the
  limit is 30720000 ms, and a call 22000000 ms after the last send, later than the
  six hours, is still denied.\<close>

theorem sendOTP_limit_capped_counterexample:
  "OTP_EXPIRE_MS \<le> 22000001 - 1
   \<and> sendOTP [] ''a@b.com'' 22000001 draws123456 True 22000001
        (serverWith \<lparr>code = ''123456'', lastSendTime = Some 1, recentSendCount = 10\<rparr>)
      = (\<lparr>msg = ''Veuillez attendre 146 minutes'' @ waitSuffix, valid = False\<rparr>,
         serverWith \<lparr>code = ''123456'', lastSendTime = Some 1, recentSendCount = 10\<rparr>)"
  by (simp add: sendOTP_def sendOTP_request_def providerOf_a_b_com rateLimitBranch_def
      serverWith_def Let_def OTP_RATE_LIMIT_MS_def OTP_EXPIRE_MS_def ceilDiv_def
      showInt_def showNat.simps digitChar_values)

subsection \<open>\<open>sendOTP\<close>: failed delivery\<close>

text \<open>
  Claim C2, amended. When a call has passed the checks and \<open>sendMail\<close> rejects, the
  answer is the generic error message with \<open>valid = false\<close>; \<open>lastSendTime\<close> and
  \<open>recentSendCount\<close> of the address are as before (for an address without an entry:
  absent and 0, in a new entry), no timer is scheduled and no other address is
  touched. The \<open>code\<close> of the address is the newly generated one:
  \<open>generateOTP\<close> has run before the mail was handed over.
\<close>

theorem sendOTP_delivery_failure:
  assumes "sendOTP_request disposableMails email now rnd st = Inr (Inr st1)"
  shows "fst (sendOTP disposableMails email now rnd False now' st) = errorResponse
         \<and> \<not> valid errorResponse
         \<and> OTP (snd (sendOTP disposableMails email now rnd False now' st)) email =
             Some \<lparr>code = genLoop rnd 0 [],
                   lastSendTime = (case OTP st email of None \<Rightarrow> None | Some p \<Rightarrow> lastSendTime p),
                   recentSendCount =
                     (case OTP st email of None \<Rightarrow> 0 | Some p \<Rightarrow> recentSendCount p)\<rparr>
         \<and> (\<forall>other. other \<noteq> email \<longrightarrow>
               OTP (snd (sendOTP disposableMails email now rnd False now' st)) other
                 = OTP st other)
         \<and> timers (snd (sendOTP disposableMails email now rnd False now' st)) = timers st"
proof -
  from assms have st1: "st1 = generateOTP email rnd st"
    by (rule sendOTP_request_generated)
  have "sendOTP disposableMails email now rnd False now' st
          = (errorResponse, generateOTP email rnd st)"
    using assms by (simp add: sendOTP_def sendOTP_settle_failed st1)
  then show ?thesis
    by (simp add: generateOTP_entry) (simp add: generateOTP_def Let_def)
qed

theorem sendOTP_delivery_failure_witness:
  "fst (sendOTP [] ''a@b.com'' 1000 draws123456 False 1500 emptyServer) = errorResponse
   \<and> OTP (snd (sendOTP [] ''a@b.com'' 1000 draws123456 False 1500 emptyServer)) ''a@b.com''
      = Some \<lparr>code = ''123456'', lastSendTime = None, recentSendCount = 0\<rparr>
   \<and> timers (snd (sendOTP [] ''a@b.com'' 1000 draws123456 False 1500 emptyServer)) = []"
proof -
  have "sendOTP_request [] ''a@b.com'' 1000 draws123456 emptyServer
          = Inr (Inr (generateOTP ''a@b.com'' draws123456 emptyServer))"
    by (simp add: sendOTP_request_def providerOf_a_b_com rateLimitBranch_def emptyServer_def)
  from sendOTP_delivery_failure [OF this, of 1500] show ?thesis
    by (simp add: genLoop_draws123456 emptyServer_def)
qed

text \<open>The stored code is not the same after a failed delivery as before it.\<close>

theorem sendOTP_delivery_failure_counterexample:
  "fst (sendOTP [] ''a@b.com'' 100000 draws222222 False 100001
          (serverWith \<lparr>code = ''123456'', lastSendTime = Some 1000, recentSendCount = 1\<rparr>))
     = errorResponse
   \<and> OTP (serverWith \<lparr>code = ''123456'', lastSendTime = Some 1000, recentSendCount = 1\<rparr>)
        ''a@b.com''
     = Some \<lparr>code = ''123456'', lastSendTime = Some 1000, recentSendCount = 1\<rparr>
   \<and> OTP (snd (sendOTP [] ''a@b.com'' 100000 draws222222 False 100001
          (serverWith \<lparr>code = ''123456'', lastSendTime = Some 1000, recentSendCount = 1\<rparr>)))
        ''a@b.com''
     = Some \<lparr>code = ''222222'', lastSendTime = Some 1000, recentSendCount = 1\<rparr>
   \<and> snd (sendOTP [] ''a@b.com'' 100000 draws222222 False 100001
          (serverWith \<lparr>code = ''123456'', lastSendTime = Some 1000, recentSendCount = 1\<rparr>))
     \<noteq> serverWith \<lparr>code = ''123456'', lastSendTime = Some 1000, recentSendCount = 1\<rparr>"
proof -
  let ?st = "serverWith \<lparr>code = ''123456'', lastSendTime = Some 1000, recentSendCount = 1\<rparr>"
  have run: "sendOTP [] ''a@b.com'' 100000 draws222222 False 100001 ?st
      = (errorResponse,
         serverWith \<lparr>code = ''222222'', lastSendTime = Some 1000, recentSendCount = 1\<rparr>)"
    by (simp add: sendOTP_def sendOTP_request_def providerOf_a_b_com rateLimitBranch_def
        serverWith_def Let_def OTP_RATE_LIMIT_MS_def generateOTP_def genLoop_draws222222
        sendOTP_settle_def)
  have "serverWith \<lparr>code = ''222222'', lastSendTime = Some 1000, recentSendCount = 1\<rparr> \<noteq> ?st"
  proof
    assume "serverWith \<lparr>code = ''222222'', lastSendTime = Some 1000, recentSendCount = 1\<rparr> = ?st"
    then have "OTP (serverWith \<lparr>code = ''222222'', lastSendTime = Some 1000, recentSendCount = 1\<rparr>)
                 ''a@b.com'' = OTP ?st ''a@b.com''" by simp
    then show False by (simp add: serverWith_def)
  qed
  with run show ?thesis by (simp add: serverWith_def)
qed

subsection \<open>Validation is one-shot\<close>

lemma expiryCallback_absent:
  "OTP st email = None \<Longrightarrow> OTP (expiryCallback e expected now st) email = None"
  by (auto simp: expiryCallback_def Let_def split: option.splits)

lemma step_keeps_absent:
  assumes "OTP st email = None" and "generatesFor disposableMails ev st \<noteq> Some email"
  shows "OTP (step disposableMails ev st) email = None"
proof (cases ev)
  case (Request e now rnd)
  show ?thesis
  proof (cases "sendOTP_request disposableMails e now rnd st")
    case (Inl err)
    with Request assms show ?thesis by (simp add: step_def)
  next
    case (Inr x)
    show ?thesis
    proof (cases x)
      case (Inl r)
      with Inr Request assms show ?thesis by (simp add: step_def)
    next
      case (Inr st1)
      with \<open>sendOTP_request disposableMails e now rnd st = Inr x\<close>
      have g: "sendOTP_request disposableMails e now rnd st = Inr (Inr st1)" by simp
      then have "st1 = generateOTP e rnd st" by (rule sendOTP_request_generated)
      moreover from g Request assms(2) have "e \<noteq> email" by (simp add: generatesFor_def)
      ultimately show ?thesis using g Request assms(1)
        by (simp add: step_def generateOTP_other)
    qed
  qed
next
  case (Settle e delivered now)
  with assms(1) show ?thesis
    by (auto simp: step_def sendOTP_settle_def scheduleOtpExpiry_def Let_def
        split: option.splits)
next
  case (Validate e otp)
  with assms(1) show ?thesis by (auto simp: step_def validateOTP_def)
next
  case (Fire e expected now)
  with assms(1) show ?thesis by (simp add: step_def expiryCallback_absent)
qed

lemma run_keeps_absent:
  "OTP st email = None \<Longrightarrow> noGenerationFor disposableMails email evs st \<Longrightarrow>
     OTP (run disposableMails evs st) email = None"
  by (induction evs arbitrary: st) (auto simp: step_keeps_absent)

lemma validate_afterFirstSend:
  "validateOTP ''a@b.com'' ''123456'' afterFirstSend
     = (True, \<lparr>OTP = Map.empty, timers = [(''a@b.com'', 1500)]\<rparr>)"
  by (simp add: validateOTP_def afterFirstSend_def)

lemma laterEvents_no_generation:
  "noGenerationFor [] ''a@b.com'' laterEvents \<lparr>OTP = Map.empty, timers = [(''a@b.com'', 1500)]\<rparr>"
  by (simp add: laterEvents_def generatesFor_def sendOTP_request_def providerOf_c_d_org
      rateLimitBranch_def step_def validateOTP_def expiryCallback_def)

text \<open>
  Claim C3. Once \<open>validateOTP\<close> has returned true for an address and a code, it returns
  false for the same address and code after any further events (calls of
  \<open>sendOTP\<close> and \<open>validateOTP\<close> for any address, halves of calls left over from
  before, expiry callbacks), as long as none of them runs \<open>generateOTP\<close> for that
  address.
\<close>

theorem validateOTP_once:
  assumes "fst (validateOTP email otp st)"
    and "noGenerationFor disposableMails email evs (snd (validateOTP email otp st))"
  shows "\<not> fst (validateOTP email otp
                 (run disposableMails evs (snd (validateOTP email otp st))))"
proof -
  from assms(1) have "OTP (snd (validateOTP email otp st)) email = None"
    by (auto simp: validateOTP_def split: if_splits)
  then have "OTP (run disposableMails evs (snd (validateOTP email otp st))) email = None"
    using assms(2) by (rule run_keeps_absent)
  then show ?thesis by (simp add: validateOTP_def)
qed

theorem validateOTP_once_witness:
  "fst (validateOTP ''a@b.com'' ''123456'' afterFirstSend)
   \<and> \<not> fst (validateOTP ''a@b.com'' ''123456''
             (run [] laterEvents (snd (validateOTP ''a@b.com'' ''123456'' afterFirstSend))))"
proof -
  have a: "fst (validateOTP ''a@b.com'' ''123456'' afterFirstSend)"
    by (simp add: validate_afterFirstSend)
  have b: "noGenerationFor [] ''a@b.com'' laterEvents
             (snd (validateOTP ''a@b.com'' ''123456'' afterFirstSend))"
    by (simp add: validate_afterFirstSend laterEvents_no_generation)
  from a validateOTP_once [OF a b] show ?thesis by blast
qed

subsection \<open>The expiry timer\<close>

text \<open>
  Claim C8, amended. A commit schedules the expiry callback with the commit's own
  timestamp (\<open>sendOTP_settle_commit\<close>). Whenever it fires, the callback deletes the
  entry of its address exactly when the entry exists, its \<open>lastSendTime\<close> is set, lies within
  \<open>OTP_EXPIRE_TOLERANCE_MS\<close> (60 seconds) of the timestamp the timer was scheduled
  with, and is at least \<open>OTP_EXPIRE_MS - OTP_EXPIRE_TOLERANCE_MS\<close> old; otherwise the
  state is as before, and the other addresses and the pending timers are never
  touched. Hence the timer of a superseded commit never deletes an entry whose
  \<open>lastSendTime\<close> is more than 60 seconds later than the timer's timestamp. (An entry
  committed again within those 60 seconds is deleted by the older timer.)
\<close>

theorem expiryCallback_guard:
  "(OTP st email = Some entry \<longrightarrow>
      (OTP (expiryCallback email expected now st) email = None
        \<longleftrightarrow> (\<exists>t. lastSendTime entry = Some t \<and> t \<noteq> 0
                 \<and> \<bar>t - expected\<bar> \<le> OTP_EXPIRE_TOLERANCE_MS
                 \<and> OTP_EXPIRE_MS - OTP_EXPIRE_TOLERANCE_MS \<le> now - t)))
   \<and> (OTP (expiryCallback email expected now st) email \<noteq> None \<longrightarrow>
        expiryCallback email expected now st = st)
   \<and> (other \<noteq> email \<longrightarrow> OTP (expiryCallback email expected now st) other = OTP st other)
   \<and> timers (expiryCallback email expected now st) = timers st
   \<and> (OTP st email = Some entry \<and> lastSendTime entry = Some t'
        \<and> OTP_EXPIRE_TOLERANCE_MS < t' - expected \<longrightarrow>
        expiryCallback email expected now st = st)"
  by (auto simp: expiryCallback_def Let_def split: option.splits)

theorem expiryCallback_guard_witness:
  "OTP (expiryCallback ''a@b.com'' 1500 21601500 afterFirstSend) ''a@b.com'' = None
   \<and> expiryCallback ''a@b.com'' 1500 21601500
        (serverWith \<lparr>code = ''222222'', lastSendTime = Some 61501, recentSendCount = 2\<rparr>)
      = serverWith \<lparr>code = ''222222'', lastSendTime = Some 61501, recentSendCount = 2\<rparr>"
proof -
  let ?e = "\<lparr>code = ''123456'', lastSendTime = Some 1500, recentSendCount = 1\<rparr>"
  let ?e2 = "\<lparr>code = ''222222'', lastSendTime = Some 61501, recentSendCount = 2\<rparr>"
  have e: "OTP afterFirstSend ''a@b.com'' = Some ?e" by (simp add: afterFirstSend_def)
  have e2: "OTP (serverWith ?e2) ''a@b.com'' = Some ?e2" by (simp add: serverWith_def)
  have a: "OTP (expiryCallback ''a@b.com'' 1500 21601500 afterFirstSend) ''a@b.com'' = None"
    using expiryCallback_guard [of afterFirstSend "''a@b.com''" ?e 1500 21601500] e
    by (simp add: OTP_EXPIRE_MS_def OTP_EXPIRE_TOLERANCE_MS_def)
  have b: "expiryCallback ''a@b.com'' 1500 21601500 (serverWith ?e2) = serverWith ?e2"
    using expiryCallback_guard [of "serverWith ?e2" "''a@b.com''" ?e2 1500 21601500 _ 61501] e2
    by (simp add: OTP_EXPIRE_MS_def OTP_EXPIRE_TOLERANCE_MS_def)
  from a b show ?thesis by blast
qed

lemma run_resendAfterValidation:
  "run [] resendAfterValidation emptyServer =
     \<lparr>OTP = [''a@b.com'' \<mapsto> \<lparr>code = ''222222'', lastSendTime = Some 11500, recentSendCount = 1\<rparr>],
      timers = [(''a@b.com'', 1500), (''a@b.com'', 11500)]\<rparr>"
  by (simp add: resendAfterValidation_def step_def sendOTP_request_def providerOf_a_b_com
      rateLimitBranch_def emptyServer_def generateOTP_def sendOTP_settle_def
      scheduleOtpExpiry_def Let_def genLoop_draws123456 genLoop_draws222222 validateOTP_def)

lemma run_twoCallsInFlight:
  "run [] twoCallsInFlight emptyServer =
     \<lparr>OTP = [''a@b.com'' \<mapsto> \<lparr>code = ''222222'', lastSendTime = Some 1700, recentSendCount = 2\<rparr>],
      timers = [(''a@b.com'', 1500), (''a@b.com'', 1700)]\<rparr>"
  by (simp add: twoCallsInFlight_def step_def sendOTP_request_def providerOf_a_b_com
      rateLimitBranch_def emptyServer_def generateOTP_def sendOTP_settle_def
      scheduleOtpExpiry_def Let_def genLoop_draws123456 genLoop_draws222222)

text \<open>The timer of a superseded commit can delete the entry of a newer committed send:
  after a validation and a new send ten seconds after the first, and after two calls
  that were in flight together, the timer of the first commit fires six hours after
  that commit and removes the entry, whose own six hours are not over.\<close>

theorem expiryCallback_superseded_counterexample:
  "OTP (run [] resendAfterValidation emptyServer) ''a@b.com''
     = Some \<lparr>code = ''222222'', lastSendTime = Some 11500, recentSendCount = 1\<rparr>
   \<and> timers (run [] resendAfterValidation emptyServer)
     = [(''a@b.com'', 1500), (''a@b.com'', 11500)]
   \<and> 21601500 < 11500 + OTP_EXPIRE_MS
   \<and> OTP (step [] (Fire ''a@b.com'' 1500 21601500) (run [] resendAfterValidation emptyServer))
        ''a@b.com'' = None
   \<and> OTP (run [] twoCallsInFlight emptyServer) ''a@b.com''
     = Some \<lparr>code = ''222222'', lastSendTime = Some 1700, recentSendCount = 2\<rparr>
   \<and> timers (run [] twoCallsInFlight emptyServer)
     = [(''a@b.com'', 1500), (''a@b.com'', 1700)]
   \<and> OTP (step [] (Fire ''a@b.com'' 1500 21601500) (run [] twoCallsInFlight emptyServer))
        ''a@b.com'' = None"
  by (simp add: run_resendAfterValidation run_twoCallsInFlight step_def expiryCallback_def
      Let_def OTP_EXPIRE_MS_def OTP_EXPIRE_TOLERANCE_MS_def)

subsection \<open>The earlier variant in \<open>backend/src/mail.ts\<close>\<close>

text \<open>There \<open>generateOTP\<close> drops \<open>lastSendTime\<close> and restarts the count, so that an
  accepted send always leaves the count at 1, and the decision of the rate limiter
  does not depend on the count: a call is let through exactly when a minute has
  passed.\<close>

lemma generateOTP_mail_ts_resets:
  "OTP_v0 (generateOTP_mail_ts email rnd st) email
     = Some \<lparr>code = genLoop rnd 0 [], lastSendTime = None, recentSendCount = 0\<rparr>"
  by (simp add: generateOTP_mail_ts_def Let_def)

lemma rateLimitBranch_mail_ts_decision:
  assumes "OTP_v0 st email = Some entry" and "lastSendTime entry = Some t" and "t \<noteq> 0"
  shows "(\<exists>st1. rateLimitBranch_mail_ts email now st = Inr st1)
           \<longleftrightarrow> OTP_RATE_LIMIT_MS \<le> now - t"
proof -
  have "(1::int) \<le> 2 ^ nat (recentSendCount entry)" by simp
  then have "OTP_RATE_LIMIT_MS \<le> OTP_RATE_LIMIT_MS * 2 ^ nat (recentSendCount entry)"
    by (simp add: OTP_RATE_LIMIT_MS_def)
  then show ?thesis
    using assms by (auto simp: rateLimitBranch_mail_ts_def Let_def)
qed

lemma sendOTP_mail_ts_count:
  assumes "valid (fst (sendOTP_mail_ts disposableMails email now rnd True now' st))"
  shows "OTP_v0 (snd (sendOTP_mail_ts disposableMails email now rnd True now' st)) email
           = Some \<lparr>code = genLoop rnd 0 [], lastSendTime = Some now', recentSendCount = 1\<rparr>"
proof -
  have deny: "\<And>r. rateLimitBranch_mail_ts email now st = Inl r \<Longrightarrow> \<not> valid r"
    by (auto simp: rateLimitBranch_mail_ts_def Let_def split: option.splits if_splits)
  from assms deny show ?thesis
    by (auto simp: sendOTP_mail_ts_def generateOTP_mail_ts_def Let_def
        split: sum.splits if_splits)
qed

end
